theory Spec2Isabelle
  imports Complex_Main "HOL-Library.Word" "HOL-Library.Char_ord"
    "HOL-Library.List_Lexorder" "HOL-Library.Product_Lexorder"
begin

unbundle bit_operations_syntax

section \<open>Python primitives used by klippy/extras/tmc2130.py\<close>

text \<open>
  Python integers are unbounded, so register words, masks and field values are \<open>int\<close>:
  the source never truncates a word to 32 bits. Exceptions are values of \<open>error\<close>;
  a method that can raise returns \<open>error + 'a\<close>.
\<close>

datatype error = KeyError | ValueError | IndexError | NameError | ConfigError

text \<open>\<open>d[k]\<close> on a dict raises KeyError for an absent key; \<open>d.get(k, default)\<close> does not.\<close>

definition getitem :: "('k \<rightharpoonup> 'v) \<Rightarrow> 'k \<Rightarrow> error + 'v" where
  "getitem d k = (case d k of None \<Rightarrow> Inl KeyError | Some v \<Rightarrow> Inr v)"

definition get_default :: "('k \<rightharpoonup> 'v) \<Rightarrow> 'k \<Rightarrow> 'v \<Rightarrow> 'v" where
  "get_default d k dflt = (case d k of None \<Rightarrow> dflt | Some v \<Rightarrow> v)"

text \<open>\<open>a << n\<close> and \<open>a >> n\<close> raise ValueError ("negative shift count") when \<open>n < 0\<close>;
  \<open>>>\<close> on a negative integer is the arithmetic shift, which is \<open>drop_bit\<close> on \<open>int\<close>.\<close>

definition lshift :: "int \<Rightarrow> int \<Rightarrow> error + int" where
  "lshift a n = (if n < 0 then Inl ValueError else Inr (push_bit (nat n) a))"

definition rshift :: "int \<Rightarrow> int \<Rightarrow> error + int" where
  "rshift a n = (if n < 0 then Inl ValueError else Inr (drop_bit (nat n) a))"

text \<open>\<open>int.bit_length()\<close>: the number of bits of the absolute value, 0 for 0.\<close>

function bit_length :: "int \<Rightarrow> nat" where
  "bit_length n = (if n = 0 then 0 else Suc (bit_length (\<bar>n\<bar> div 2)))"
  by pat_completeness auto
termination
  by (relation "measure (\<lambda>n. nat \<bar>n\<bar>)") auto

declare bit_length.simps [simp del]

text \<open>\<open>str(n)\<close> of an integer: decimal digits, with a leading minus sign.\<close>

definition digit_char :: "int \<Rightarrow> char" where
  "digit_char d = (''0123456789abcdef'' ! nat d)"

function digits :: "int \<Rightarrow> int \<Rightarrow> string" where
  "digits b n =
     (if b < 2 \<or> n < b then [digit_char n] else digits b (n div b) @ [digit_char (n mod b)])"
  by pat_completeness auto
termination
proof (relation "measure (\<lambda>(b, n). nat n)")
  show "wf (measure (\<lambda>(b::int, n::int). nat n))" by simp
next
  fix b n :: int
  assume "\<not> (b < 2 \<or> n < b)"
  then have "2 \<le> b" "0 < n" by auto
  then have "n div b < n" by (simp add: int_div_less_self)
  moreover have "0 < n" by fact
  ultimately show "((b, n div b), (b, n)) \<in> measure (\<lambda>(b, n). nat n)" by simp
qed

declare digits.simps [simp del]

definition py_str :: "int \<Rightarrow> string" where
  "py_str n = (if n < 0 then ''-'' else '''') @ digits 10 \<bar>n\<bar>"

text \<open>\<open>"%08x" % n\<close>: lower-case hexadecimal digits of \<open>|n|\<close>, a minus sign for a negative
  \<open>n\<close>, zeros between sign and digits up to a total width of 8; no prefix.\<close>

definition format_08x :: "int \<Rightarrow> string" where
  "format_08x n =
     (let sign = (if n < 0 then ''-'' else ''''); ds = digits 16 \<bar>n\<bar>
      in sign @ replicate (8 - length sign - length ds) (CHR ''0'') @ ds)"

text \<open>\<open>"%-11s" % s\<close>: \<open>s\<close> left-justified, filled with spaces to 11 columns.\<close>

definition ljust :: "nat \<Rightarrow> string \<Rightarrow> string" where
  "ljust w s = s @ replicate (w - length s) (CHR '' '')"

text \<open>\<open>s.upper()\<close> on a byte string: the ASCII letters a-z are raised.\<close>

definition upper_char :: "char \<Rightarrow> char" where
  "upper_char c =
     (if CHR ''a'' \<le> c \<and> c \<le> CHR ''z'' then char_of (of_char c - (32::nat)) else c)"

definition upper :: "string \<Rightarrow> string" where
  "upper s = map upper_char s"

section \<open>Field helpers\<close>

text \<open>\<open>ffs(mask) = (mask & -mask).bit_length() - 1\<close>; it is \<open>-1\<close> for the mask 0.\<close>

definition ffs :: "int \<Rightarrow> int" where
  "ffs msk = int (bit_length (msk AND - msk)) - 1"

definition decode_signed_int :: "int \<Rightarrow> int \<Rightarrow> error + int" where
  "decode_signed_int val bits =
     (case rshift val (bits - 1) of
        Inl e \<Rightarrow> Inl e
      | Inr t \<Rightarrow>
          if t AND 1 \<noteq> 0
          then (case lshift 1 bits of Inl e \<Rightarrow> Inl e | Inr p \<Rightarrow> Inr (val - p))
          else Inr val)"

text \<open>
  \<open>all_fields\<close> is a dict of dicts, register name to (field name to mask). It is kept as
  the list of its items in iteration order, because \<open>__init__\<close> iterates over it and a
  later item overrides an earlier one; lookups go through \<open>map_of\<close>.
\<close>

type_synonym field_table = "(string \<times> (string \<times> int) list) list"

record FieldHelper =
  all_fields :: field_table
  field_formatters :: "string \<rightharpoonup> (int \<Rightarrow> string)"
  registers :: "string \<rightharpoonup> int"
  field_to_register :: "string \<rightharpoonup> string"

text \<open>The dict comprehension \<open>{f: r for r, fields in all_fields.items() for f in fields}\<close>:
  two nested loops storing \<open>d[f] = r\<close>.\<close>

fun store_fields :: "string \<Rightarrow> (string \<times> int) list \<Rightarrow> (string \<rightharpoonup> string) \<Rightarrow> (string \<rightharpoonup> string)" where
  "store_fields r [] d = d"
| "store_fields r ((f, m) # fs) d = store_fields r fs (d(f \<mapsto> r))"

fun reverse_lookup :: "field_table \<Rightarrow> (string \<rightharpoonup> string) \<Rightarrow> (string \<rightharpoonup> string)" where
  "reverse_lookup [] d = d"
| "reverse_lookup ((r, fs) # rest) d = reverse_lookup rest (store_fields r fs d)"

text \<open>\<open>FieldHelper.__init__\<close>. No statement of the constructor raises or inspects a mask.\<close>

definition FieldHelper_init ::
  "field_table \<Rightarrow> (string \<rightharpoonup> (int \<Rightarrow> string)) \<Rightarrow> (string \<rightharpoonup> int) option \<Rightarrow> error + FieldHelper" where
  "FieldHelper_init af ff regs =
     Inr \<lparr> all_fields = af, field_formatters = ff,
           registers = (case regs of None \<Rightarrow> Map.empty | Some r \<Rightarrow> r),
           field_to_register = reverse_lookup af Map.empty \<rparr>"

text \<open>\<open>self.all_fields[reg_name][field_name]\<close>.\<close>

definition field_mask :: "field_table \<Rightarrow> string \<Rightarrow> string \<Rightarrow> error + int" where
  "field_mask af reg_name field_name =
     (case getitem (map_of af) reg_name of
        Inl e \<Rightarrow> Inl e
      | Inr fs \<Rightarrow> getitem (map_of fs) field_name)"

text \<open>The common head of \<open>get_field\<close> and \<open>set_field\<close>:
  \<open>if reg_name is None: reg_name = self.field_to_register[field_name]\<close>.\<close>

definition resolve_reg :: "FieldHelper \<Rightarrow> string \<Rightarrow> string option \<Rightarrow> error + string" where
  "resolve_reg self field_name reg_name =
     (case reg_name of None \<Rightarrow> getitem (field_to_register self) field_name | Some r \<Rightarrow> Inr r)"

text \<open>Every method takes the helper and returns it with its result, so that what a
  method writes is visible.\<close>

definition get_field ::
  "string \<Rightarrow> int option \<Rightarrow> string option \<Rightarrow> FieldHelper \<Rightarrow> (error + int) \<times> FieldHelper" where
  "get_field field_name reg_value reg_name self =
     (case resolve_reg self field_name reg_name of
        Inl e \<Rightarrow> (Inl e, self)
      | Inr rn \<Rightarrow>
          (case (case reg_value of None \<Rightarrow> getitem (registers self) rn | Some v \<Rightarrow> Inr v) of
             Inl e \<Rightarrow> (Inl e, self)
           | Inr rv \<Rightarrow>
               (case field_mask (all_fields self) rn field_name of
                  Inl e \<Rightarrow> (Inl e, self)
                | Inr msk \<Rightarrow> (rshift (rv AND msk) (ffs msk), self))))"

definition set_field ::
  "string \<Rightarrow> int \<Rightarrow> int option \<Rightarrow> string option \<Rightarrow> FieldHelper \<Rightarrow> (error + int) \<times> FieldHelper" where
  "set_field field_name field_value reg_value reg_name self =
     (case resolve_reg self field_name reg_name of
        Inl e \<Rightarrow> (Inl e, self)
      | Inr rn \<Rightarrow>
          (let rv = (case reg_value of None \<Rightarrow> get_default (registers self) rn 0 | Some v \<Rightarrow> v)
           in case field_mask (all_fields self) rn field_name of
                Inl e \<Rightarrow> (Inl e, self)
              | Inr msk \<Rightarrow>
                  (case lshift field_value (ffs msk) of
                     Inl e \<Rightarrow> (Inl e, self)
                   | Inr shifted \<Rightarrow>
                       (let new_value = (rv AND NOT msk) OR (shifted AND msk)
                        in (Inr new_value,
                            self\<lparr>registers := (registers self)(rn \<mapsto> new_value)\<rparr>)))))"

text \<open>
  The configuration object is not part of these sources; \<open>set_config_field\<close> only calls
  its \<open>getboolean(name, default)\<close> and \<open>getint(name, default, minval, maxval)\<close>, which
  are taken as they come. A Python bool is the integer 0 or 1.
\<close>

record config =
  getboolean :: "string \<Rightarrow> int \<Rightarrow> error + int"
  getint :: "string \<Rightarrow> int \<Rightarrow> int \<Rightarrow> int \<Rightarrow> error + int"

definition set_config_field ::
  "config \<Rightarrow> string \<Rightarrow> int \<Rightarrow> string option \<Rightarrow> FieldHelper \<Rightarrow> (error + int) \<times> FieldHelper" where
  "set_config_field cfg field_name dflt config_name self =
     (let cname = (case config_name of None \<Rightarrow> ''driver_'' @ upper field_name | Some c \<Rightarrow> c)
      in case getitem (field_to_register self) field_name of
           Inl e \<Rightarrow> (Inl e, self)
         | Inr rn \<Rightarrow>
             (case field_mask (all_fields self) rn field_name of
                Inl e \<Rightarrow> (Inl e, self)
              | Inr msk \<Rightarrow>
                  (case rshift msk (ffs msk) of
                     Inl e \<Rightarrow> (Inl e, self)
                   | Inr maxval \<Rightarrow>
                       (case (if maxval = 1 then getboolean cfg cname dflt
                              else getint cfg cname dflt 0 maxval) of
                          Inl e \<Rightarrow> (Inl e, self)
                        | Inr val \<Rightarrow> set_field field_name val None None self))))"

text \<open>The loop of \<open>pretty_format\<close> over the sorted \<open>(mask, name)\<close> pairs; \<open>acc\<close> is the
  list \<open>fields\<close> the loop appends to.\<close>

fun format_fields ::
  "(string \<rightharpoonup> (int \<Rightarrow> string)) \<Rightarrow> int \<Rightarrow> (int \<times> string) list \<Rightarrow> string list \<Rightarrow> error + string list" where
  "format_fields fmts val [] acc = Inr acc"
| "format_fields fmts val ((msk, field_name) # rest) acc =
     (case rshift (val AND msk) (ffs msk) of
        Inl e \<Rightarrow> Inl e
      | Inr fval \<Rightarrow>
          (let sval = (get_default fmts field_name py_str) fval
           in if sval \<noteq> [] \<and> sval \<noteq> ''0''
              then format_fields fmts val rest (acc @ ['' '' @ field_name @ ''='' @ sval])
              else format_fields fmts val rest acc))"

definition pretty_format :: "string \<Rightarrow> int \<Rightarrow> FieldHelper \<Rightarrow> (error + string) \<times> FieldHelper" where
  "pretty_format reg_name val self =
     (let reg_fields = get_default (map_of (all_fields self)) reg_name [];
          reg_fields = sort (map (\<lambda>(name, msk). (msk, name)) reg_fields)
      in case format_fields (field_formatters self) val reg_fields [] of
           Inl e \<Rightarrow> (Inl e, self)
         | Inr fs \<Rightarrow>
             (Inr (ljust 11 (reg_name @ '':'') @ '' '' @ format_08x val @ concat fs), self))"

text \<open>The value text of one \<open>(mask, name)\<close> pair of \<open>pretty_format\<close>, and whether the
  pair is printed: the closed form against which the loop is checked.\<close>

definition field_text :: "(string \<rightharpoonup> (int \<Rightarrow> string)) \<Rightarrow> int \<Rightarrow> int \<times> string \<Rightarrow> string" where
  "field_text fmts val p =
     (get_default fmts (snd p) py_str) (drop_bit (nat (ffs (fst p))) (val AND fst p))"

definition shown :: "(string \<rightharpoonup> (int \<Rightarrow> string)) \<Rightarrow> int \<Rightarrow> int \<times> string \<Rightarrow> bool" where
  "shown fmts val p = (field_text fmts val p \<noteq> [] \<and> field_text fmts val p \<noteq> ''0'')"

definition field_entry :: "(string \<rightharpoonup> (int \<Rightarrow> string)) \<Rightarrow> int \<Rightarrow> int \<times> string \<Rightarrow> string" where
  "field_entry fmts val p = '' '' @ snd p @ ''='' @ field_text fmts val p"

section \<open>TMC2130 printer object\<close>

definition GCONF_EN_PWM_MODE :: int where
  "GCONF_EN_PWM_MODE = push_bit 2 1"

definition GCONF_DIAG1_STALL :: int where
  "GCONF_DIAG1_STALL = push_bit 8 1"

text \<open>
  What the driver does to the outside world is kept as a trace, oldest effect first: the
  frames it hands to the SPI bus and its calls of \<open>set_current_regs\<close>. The attributes
  \<open>reg_GCONF\<close>, \<open>tcoolthrs\<close> and the three currents are set by the part of
  \<open>__init__\<close> that these sources do not show; the hooks below only read them. The
  currents are floats that are handed on unchanged and never computed with; each is kept
  as the real number it denotes.
\<close>

datatype effect = SpiSend "int list" | SpiTransfer "int list" | SetCurrentRegs real real

record TMC2130 =
  trace :: "effect list"
  fields' :: FieldHelper
  mres :: int
  reg_GCONF :: int
  tcoolthrs :: int
  run_current :: real
  hold_current :: real
  homing_current :: real

text \<open>
  Modelled from the spec: the SPI bus object (\<open>bus.MCU_SPI\<close>) is not part of these sources.
  The spec gives the transport \<open>send(bytes) -> ()\<close> and \<open>transfer(bytes) -> bytes\<close>, a
  synchronous full-duplex exchange. Each call is recorded with its frame; what a transfer
  returns is the answer of the device, a function \<open>bus\<close> of everything done so far.
\<close>

definition spi_send :: "int list \<Rightarrow> TMC2130 \<Rightarrow> TMC2130" where
  "spi_send data self = self\<lparr>trace := trace self @ [SpiSend data]\<rparr>"

definition spi_transfer ::
  "(effect list \<Rightarrow> 8 word list) \<Rightarrow> int list \<Rightarrow> TMC2130 \<Rightarrow> 8 word list \<times> TMC2130" where
  "spi_transfer bus data self =
     (bus (trace self @ [SpiTransfer data]), self\<lparr>trace := trace self @ [SpiTransfer data]\<rparr>)"

text \<open>
  Modelled from the spec: \<open>set_current_regs\<close> is a method of the driver whose body is not
  part of these sources; the spec only says that it sets the driver current to a pair
  (run, hold). The call is recorded with its two arguments.
\<close>

definition set_current_regs :: "real \<Rightarrow> real \<Rightarrow> TMC2130 \<Rightarrow> TMC2130" where
  "set_current_regs run_cur hold_cur self =
     self\<lparr>trace := trace self @ [SetCurrentRegs run_cur hold_cur]\<rparr>"

text \<open>
  A name read in a method body that is neither a parameter nor assigned in the body is
  looked up in the module namespace, then among the builtins; a name found in neither
  raises NameError. \<open>module_ints\<close> holds the module-level names of \<open>tmc2130.py\<close> that are
  bound to integers. The other module-level names are \<open>math\<close>, \<open>logging\<close>, \<open>pins\<close>,
  \<open>tmc2130_extra\<close>, \<open>bus\<close>, \<open>TMC_FREQUENCY\<close>, \<open>Registers\<close>, \<open>ReadRegisters\<close>,
  \<open>Fields\<close>, the functions and the classes.
\<close>

definition module_ints :: "string \<rightharpoonup> int" where
  "module_ints = [''GCONF_EN_PWM_MODE'' \<mapsto> GCONF_EN_PWM_MODE,
                  ''GCONF_DIAG1_STALL'' \<mapsto> GCONF_DIAG1_STALL]"

text \<open>
  \<open>get_register\<close>. Its parameters are \<open>self\<close> and \<open>reg_name\<close>, the names it assigns are
  \<open>params\<close> and \<open>pr\<close>. The first statement reads the name \<open>reg\<close> to build the frame
  \<open>[reg, 0x00, 0x00, 0x00, 0x00]\<close>; nothing binds that name (the sibling \<open>set_register\<close>
  opens with \<open>reg = Registers[reg_name]\<close>), so the lookup raises NameError before
  \<open>spi_send\<close> is called. The statements after the lookup are kept as they are written:
  \<open>pr[1]\<close> to \<open>pr[4]\<close> raise IndexError on a response shorter than 5 bytes.
\<close>

definition get_register ::
  "(effect list \<Rightarrow> 8 word list) \<Rightarrow> string \<Rightarrow> TMC2130 \<Rightarrow> (error + int) \<times> TMC2130" where
  "get_register bus reg_name self =
     (case module_ints ''reg'' of
        None \<Rightarrow> (Inl NameError, self)
      | Some reg \<Rightarrow>
          (let self = spi_send [reg, 0, 0, 0, 0] self;
               (pr, self) = spi_transfer bus [reg, 0, 0, 0, 0] self
           in if length pr < 5 then (Inl IndexError, self)
              else (Inr (push_bit 24 (uint (pr ! 1)) OR push_bit 16 (uint (pr ! 2)) OR
                         push_bit 8 (uint (pr ! 3)) OR uint (pr ! 4)), self)))"

text \<open>\<open>set_register\<close>. \<open>Registers\<close> is the table of \<open>tmc2130_extra\<close>, register name to
  address, which is not part of these sources; it is an argument.\<close>

definition set_register ::
  "(string \<rightharpoonup> int) \<Rightarrow> string \<Rightarrow> int \<Rightarrow> TMC2130 \<Rightarrow> (error + unit) \<times> TMC2130" where
  "set_register Registers reg_name val self =
     (case getitem Registers reg_name of
        Inl e \<Rightarrow> (Inl e, self)
      | Inr reg \<Rightarrow>
          (let data = [(reg OR 0x80) AND 0xff, drop_bit 24 val AND 0xff,
                       drop_bit 16 val AND 0xff, drop_bit 8 val AND 0xff, val AND 0xff]
           in (Inr (), spi_send data self)))"

definition get_microsteps :: "TMC2130 \<Rightarrow> error + int" where
  "get_microsteps self = rshift 256 (mres self)"

section \<open>Endstop wrapper that enables sensorless homing\<close>

text \<open>The wrapped MCU endstop is outside these sources; the calls forwarded to it are
  recorded in order.\<close>

datatype endstop_call = EndstopHomePrepare | EndstopHomeFinalize

record TMC2130VirtualEndstop =
  tmc2130 :: TMC2130
  mcu_endstop :: "endstop_call list"

definition home_prepare ::
  "(string \<rightharpoonup> int) \<Rightarrow> TMC2130VirtualEndstop \<Rightarrow> (error + unit) \<times> TMC2130VirtualEndstop" where
  "home_prepare Registers self =
     (let gconf = reg_GCONF (tmc2130 self);
          gconf = gconf AND NOT GCONF_EN_PWM_MODE;
          gconf = gconf OR GCONF_DIAG1_STALL
      in case set_register Registers ''GCONF'' gconf (tmc2130 self) of
           (Inl e, t) \<Rightarrow> (Inl e, self\<lparr>tmc2130 := t\<rparr>)
         | (Inr u, t) \<Rightarrow>
             (let t = set_current_regs (homing_current t) (hold_current t) t
              in case set_register Registers ''TCOOLTHRS'' 0xfffff t of
                   (Inl e, t) \<Rightarrow> (Inl e, self\<lparr>tmc2130 := t\<rparr>)
                 | (Inr u, t) \<Rightarrow>
                     (Inr (), self\<lparr>tmc2130 := t,
                                  mcu_endstop := mcu_endstop self @ [EndstopHomePrepare]\<rparr>)))"

definition home_finalize ::
  "(string \<rightharpoonup> int) \<Rightarrow> TMC2130VirtualEndstop \<Rightarrow> (error + unit) \<times> TMC2130VirtualEndstop" where
  "home_finalize Registers self =
     (case set_register Registers ''GCONF'' (reg_GCONF (tmc2130 self)) (tmc2130 self) of
        (Inl e, t) \<Rightarrow> (Inl e, self\<lparr>tmc2130 := t\<rparr>)
      | (Inr u, t) \<Rightarrow>
          (let t = set_current_regs (run_current t) (hold_current t) t
           in case set_register Registers ''TCOOLTHRS'' (max 0 (min 0xfffff (tcoolthrs t))) t of
                (Inl e, t) \<Rightarrow> (Inl e, self\<lparr>tmc2130 := t\<rparr>)
              | (Inr u, t) \<Rightarrow>
                  (Inr (), self\<lparr>tmc2130 := t,
                               mcu_endstop := mcu_endstop self @ [EndstopHomeFinalize]\<rparr>)))"

text \<open>
  Modelled from the spec: the driver chip at the far end of the bus is hardware, not code.
  The spec gives the write frame as \<open>[address | write_bit, byte3, byte2, byte1, byte0]\<close>,
  big-endian; the chip reads it back: a frame sent with bit 7 of its address byte set stores
  its four data bytes, most significant first, in the register addressed by the low seven
  bits. \<open>chip_regs\<close> is the content of the chip's registers after a trace, as far as the
  frames of the trace determine it; a call of \<open>set_current_regs\<close> is opaque to it.
\<close>

fun chip_step :: "effect \<Rightarrow> (int \<rightharpoonup> int) \<Rightarrow> (int \<rightharpoonup> int)" where
  "chip_step (SpiSend [a, b3, b2, b1, b0]) regs =
     (if a AND 0x80 \<noteq> 0
      then regs(a AND 0x7f \<mapsto> push_bit 24 b3 OR push_bit 16 b2 OR push_bit 8 b1 OR b0)
      else regs)"
| "chip_step e regs = regs"

definition chip_regs :: "effect list \<Rightarrow> (int \<rightharpoonup> int)" where
  "chip_regs tr = fold chip_step tr Map.empty"

text \<open>The frame \<open>set_register\<close> builds for an address and a word, and the effects that
  are calls of \<open>set_current_regs\<close>.\<close>

definition write_frame :: "int \<Rightarrow> int \<Rightarrow> int list" where
  "write_frame reg val =
     [(reg OR 0x80) AND 0xff, drop_bit 24 val AND 0xff, drop_bit 16 val AND 0xff,
      drop_bit 8 val AND 0xff, val AND 0xff]"

fun is_current_call :: "effect \<Rightarrow> bool" where
  "is_current_call (SetCurrentRegs r h) = True"
| "is_current_call e = False"

text \<open>The (field, register) pairs of a table in iteration order: the reverse lookup in
  closed form is \<open>map_of\<close> of their reversal.\<close>

definition field_pairs :: "field_table \<Rightarrow> (string \<times> string) list" where
  "field_pairs af = concat (map (\<lambda>(r, fs). map (\<lambda>(f, m). (f, r)) fs) af)"

section \<open>Reference data for the statements below\<close>

definition example_fields :: field_table where
  "example_fields = [(''GCONF'', [(''en_pwm_mode'', 4), (''diag1_stall'', 256)]),
                     (''CHOPCONF'', [(''toff'', 15), (''hstrt'', 112)])]"

definition example_helper :: FieldHelper where
  "example_helper = \<lparr> all_fields = example_fields, field_formatters = Map.empty,
      registers = Map.empty, field_to_register = reverse_lookup example_fields Map.empty \<rparr>"

definition clashing_fields :: field_table where
  "clashing_fields = [(''GCONF'', [(''en_pwm_mode'', 4)]),
                      (''CHOPCONF'', [(''en_pwm_mode'', 1), (''toff'', 0)])]"

definition example_Registers :: "string \<rightharpoonup> int" where
  "example_Registers = [''GCONF'' \<mapsto> 0x00, ''TCOOLTHRS'' \<mapsto> 0x14]"

definition example_driver :: TMC2130 where
  "example_driver = \<lparr> trace = [], fields' = example_helper, mres = 4, reg_GCONF = 4,
      tcoolthrs = 500, run_current = 0.8, hold_current = 0.3, homing_current = 0.5 \<rparr>"

definition example_endstop :: TMC2130VirtualEndstop where
  "example_endstop = \<lparr> tmc2130 = example_driver, mcu_endstop = [] \<rparr>"

definition example_bus :: "effect list \<Rightarrow> 8 word list" where
  "example_bus tr = [0, 0, 0, 1, 4]"

text \<open>The reference driver after \<open>set_register("GCONF", 5)\<close>, wrapped in an endstop.\<close>

definition rewritten_endstop :: TMC2130VirtualEndstop where
  "rewritten_endstop =
     \<lparr> tmc2130 = snd (set_register example_Registers ''GCONF'' 5 example_driver),
       mcu_endstop = [] \<rparr>"

section \<open>Bit-level facts\<close>

lemma odd_and_minus: "odd (m::int) \<Longrightarrow> m AND - m = 1"
proof (rule bit_eqI)
  fix n assume o: "odd m"
  show "bit (m AND - m) n = bit (1::int) n"
  proof (cases n)
    case 0 with o show ?thesis by (simp add: bit_0 even_and_iff)
  next
    case (Suc k)
    from o have "(m - 1) div 2 = m div 2" by presburger
    then have "bit (m - 1) (Suc k) = bit m (Suc k)" by (simp add: bit_Suc)
    then have "\<not> bit (m AND - m) (Suc k)"
      by (simp add: bit_and_iff bit_minus_int_iff bit_not_iff del: bit_Suc)
    then show ?thesis using Suc by (simp add: bit_Suc)
  qed
qed

lemma bit_length_pow2: "bit_length (2 ^ s) = Suc s"
  by (induction s) (simp_all add: bit_length.simps)

lemma ffs_push_bit_odd: "odd m \<Longrightarrow> ffs (push_bit s m) = int s"
proof -
  assume "odd m"
  then have "m AND - m = 1" by (rule odd_and_minus)
  moreover have "push_bit s m AND - push_bit s m = push_bit s (m AND - m)"
    by (simp add: push_bit_and push_bit_minus)
  ultimately have "push_bit s m AND - push_bit s m = 2 ^ s"
    by (simp add: push_bit_eq_mult)
  then show ?thesis
    by (simp only: ffs_def bit_length_pow2)
qed

lemma nonzero_decomp: "(k::int) \<noteq> 0 \<Longrightarrow> \<exists>s m. odd m \<and> k = push_bit s m"
proof (induction "nat \<bar>k\<bar>" arbitrary: k rule: less_induct)
  case less
  show ?case
  proof (cases "odd k")
    case True
    then have "odd k \<and> k = push_bit 0 k" by simp
    then show ?thesis by blast
  next
    case False
    then obtain j where j: "k = 2 * j" by (auto elim: evenE)
    with less.prems have "j \<noteq> 0" "nat \<bar>j\<bar> < nat \<bar>k\<bar>" by auto
    from less.hyps [OF this(2) this(1)] obtain s m where "odd m" "j = push_bit s m" by blast
    then have "odd m \<and> k = push_bit (Suc s) m" using j by (simp add: push_bit_eq_mult)
    then show ?thesis by blast
  qed
qed

lemma ffs_nonneg: "k \<noteq> 0 \<Longrightarrow> 0 \<le> ffs k"
  using nonzero_decomp [of k] ffs_push_bit_odd by fastforce

lemma ffs_zero: "ffs 0 = - 1"
  by (simp add: ffs_def bit_length.simps)

lemma ffs_neg_iff: "ffs k < 0 \<longleftrightarrow> k = 0"
  by (cases "k = 0") (simp_all add: ffs_zero ffs_nonneg not_less)

lemma ffs_contiguous: "0 < k \<Longrightarrow> ffs (push_bit s (2 ^ k - 1)) = int s"
  by (rule ffs_push_bit_odd) simp

lemma field_bits_replaced:
  fixes w v :: int
  shows "drop_bit s (((w AND NOT (push_bit s (2 ^ k - 1))) OR (push_bit s v AND push_bit s (2 ^ k - 1)))
           AND push_bit s (2 ^ k - 1)) = take_bit k v"
  by (rule bit_eqI) (auto simp add: bit_simps simp flip: mask_eq_exp_minus_1)

lemma other_bits_kept: "((w AND NOT m) OR (x AND m)) AND NOT m = w AND NOT (m::int)"
  by (rule bit_eqI) (auto simp add: bit_simps)

section \<open>The field codec\<close>

text \<open>
  C5 (round trip). For a field whose mask is a non-empty contiguous run of bits
  (\<open>k > 0\<close> ones starting at bit \<open>s\<close>) and a value \<open>v\<close> with
  \<open>0 \<le> v \<le> mask >> ffs(mask)\<close>, \<open>set_field\<close> succeeds whatever the starting word is
  (given explicitly, cached, or absent from the cache), and \<open>get_field\<close> on the word it
  returns, or on the cache it has written, gives \<open>v\<close> back.
\<close>

theorem set_field_then_get_field:
  assumes reg: "field_to_register self fld = Some rn"
    and tbl: "map_of (all_fields self) rn = Some fs" "map_of fs fld = Some msk"
    and run: "msk = push_bit s (2 ^ k - 1)" "0 < k"
    and top: "rshift msk (ffs msk) = Inr vmax"
    and rng: "0 \<le> v" "v \<le> vmax"
  shows "case set_field fld v reg_value None self of
           (Inl e, self') \<Rightarrow> False
         | (Inr w, self') \<Rightarrow>
             get_field fld (Some w) None self' = (Inr v, self') \<and>
             get_field fld None None self' = (Inr v, self')"
proof -
  have f: "ffs msk = int s" using run by (simp add: ffs_contiguous)
  have "vmax = 2 ^ k - 1" using top run f by (simp add: rshift_def drop_bit_push_bit)
  with rng have "take_bit k v = v" by (simp add: take_bit_int_eq_self)
  with field_bits_replaced [of s _ k v]
  have get: "\<And>w. drop_bit s (((w AND NOT msk) OR (push_bit s v AND msk)) AND msk) = v"
    using run by simp
  show ?thesis
    using reg tbl f get
    by (simp add: set_field_def get_field_def resolve_reg_def getitem_def field_mask_def
        lshift_def rshift_def Let_def)
qed

text \<open>The round trip at the field \<open>hstrt\<close> (mask 0x70) of the reference table, value 5.\<close>

theorem set_field_then_get_field_witness:
  "case set_field ''hstrt'' 5 None None example_helper of
     (Inl e, self') \<Rightarrow> False
   | (Inr w, self') \<Rightarrow>
       get_field ''hstrt'' (Some w) None self' = (Inr 5, self') \<and>
       get_field ''hstrt'' None None self' = (Inr 5, self')"
proof -
  have f: "ffs 112 = 4" by (simp add: ffs_def bit_length.simps)
  have m: "(112::int) = push_bit 4 (2 ^ 3 - 1)" by simp
  have r: "field_to_register example_helper ''hstrt'' = Some ''CHOPCONF''"
    by (simp add: example_helper_def example_fields_def)
  have t: "map_of (all_fields example_helper) ''CHOPCONF'' = Some [(''toff'', 15), (''hstrt'', 112)]"
    by (simp add: example_helper_def example_fields_def)
  have t2: "map_of [(''toff'', 15), (''hstrt'', 112::int)] ''hstrt'' = Some 112" by simp
  have v: "rshift 112 (ffs 112) = Inr 7" by (simp add: rshift_def f drop_bit_eq_div)
  show ?thesis
    using set_field_then_get_field [OF r t t2 m _ v, of 5 None] by simp
qed

text \<open>
  C6 (isolation). For every field the table knows, every value (in range or not) and every
  starting word, \<open>set_field\<close> returns a word that agrees with the starting word on all
  bits outside the field's mask, and stores that word under the field's register. The only
  call that does not return a word is the one on a field whose mask is 0 (the shift count
  \<open>ffs(0) = -1\<close> raises); it leaves the helper as it was.
\<close>

theorem set_field_keeps_other_bits:
  assumes reg: "resolve_reg self fld reg_name = Inr rn"
    and tbl: "field_mask (all_fields self) rn fld = Inr msk"
  shows "case set_field fld v reg_value reg_name self of
           (Inl e, self') \<Rightarrow> msk = 0 \<and> self' = self
         | (Inr w, self') \<Rightarrow>
             msk \<noteq> 0 \<and>
             w AND NOT msk =
               (case reg_value of None \<Rightarrow> get_default (registers self) rn 0 | Some x \<Rightarrow> x)
                 AND NOT msk \<and>
             registers self' = (registers self)(rn \<mapsto> w)"
proof (cases "msk = 0")
  case True
  then show ?thesis using reg tbl
    by (simp add: set_field_def lshift_def ffs_zero)
next
  case False
  then have "\<not> ffs msk < 0" by (simp add: ffs_neg_iff)
  then show ?thesis using reg tbl False
    by (simp add: set_field_def lshift_def Let_def other_bits_kept)
qed

text \<open>Isolation at \<open>hstrt\<close> with the out-of-range value 1000 written into the all-ones word.\<close>

theorem set_field_keeps_other_bits_witness:
  "case set_field ''hstrt'' 1000 (Some (- 1)) None example_helper of
     (Inl e, self') \<Rightarrow> False
   | (Inr w, self') \<Rightarrow>
       w AND NOT 112 = (- 1) AND NOT 112 \<and> registers self' = (registers example_helper)(''CHOPCONF'' \<mapsto> w)"
proof -
  have r: "resolve_reg example_helper ''hstrt'' None = Inr ''CHOPCONF''"
    by (simp add: resolve_reg_def getitem_def example_helper_def example_fields_def)
  have t: "field_mask (all_fields example_helper) ''CHOPCONF'' ''hstrt'' = Inr 112"
    by (simp add: field_mask_def getitem_def example_helper_def example_fields_def)
  show ?thesis
    using set_field_keeps_other_bits [OF r t, where v = 1000 and reg_value = "Some (- 1)"]
    by (simp split: prod.splits sum.splits)
qed

text \<open>
  C3 (absent cache entry). \<open>get_field\<close> without a word reads \<open>self.registers[reg_name]\<close>:
  on a helper whose cache has no entry for GCONF it raises KeyError, where \<open>set_field\<close>
  on the same helper reads \<open>self.registers.get(reg_name, 0)\<close> and computes from 0.
\<close>

theorem get_field_absent_entry_raises:
  "get_field ''en_pwm_mode'' None None example_helper = (Inl KeyError, example_helper) \<and>
   fst (set_field ''en_pwm_mode'' 1 None None example_helper) = Inr 4"
proof -
  have f: "ffs 4 = 2" by (simp add: ffs_def bit_length.simps)
  have r: "resolve_reg example_helper ''en_pwm_mode'' None = Inr ''GCONF''"
    by (simp add: resolve_reg_def getitem_def example_helper_def example_fields_def)
  have t: "field_mask (all_fields example_helper) ''GCONF'' ''en_pwm_mode'' = Inr 4"
    by (simp add: field_mask_def getitem_def example_helper_def example_fields_def)
  have c: "registers example_helper ''GCONF'' = None"
    by (simp add: example_helper_def)
  show ?thesis
    by (simp add: get_field_def set_field_def r t c f getitem_def get_default_def lshift_def)
qed

text \<open>The dict comprehension is a right-biased merge: the last register listing a field wins.\<close>

lemma store_fields_eq:
  "store_fields r fs d = d ++ map_of (rev (map (\<lambda>(f, m). (f, r)) fs))"
proof (induction fs arbitrary: d)
  case Nil
  show ?case by simp
next
  case (Cons p fs)
  obtain f m where p: "p = (f, m)" by (cases p)
  let ?M = "map_of (rev (map (\<lambda>(f, m). (f, r)) fs))"
  have "store_fields r (p # fs) d = store_fields r fs (d(f \<mapsto> r))"
    using p by simp
  also have "\<dots> = d(f \<mapsto> r) ++ ?M" by (rule Cons.IH)
  also have "d(f \<mapsto> r) = d ++ [f \<mapsto> r]" by simp
  also have "(d ++ [f \<mapsto> r]) ++ ?M = d ++ ([f \<mapsto> r] ++ ?M)"
    by (rule map_add_assoc [symmetric])
  also have "[f \<mapsto> r] ++ ?M = map_of (rev (map (\<lambda>(f, m). (f, r)) (p # fs)))"
    using p by (simp add: map_of_append)
  finally show ?case .
qed

lemma reverse_lookup_eq: "reverse_lookup af d = d ++ map_of (rev (field_pairs af))"
proof (induction af arbitrary: d)
  case Nil
  show ?case by (simp add: field_pairs_def)
next
  case (Cons p af)
  obtain r fs where p: "p = (r, fs)" by (cases p)
  have "field_pairs (p # af) = map (\<lambda>(f, m). (f, r)) fs @ field_pairs af"
    using p by (simp add: field_pairs_def)
  then show ?case using Cons.IH [of "store_fields r fs d"] p
    by (simp add: store_fields_eq map_of_append)
qed

text \<open>
  Against C4 as stated: the constructor accepts a table in which \<open>en_pwm_mode\<close> is listed
  under two registers and \<open>toff\<close> has the mask 0; the reverse lookup keeps the register
  listed last.
\<close>

theorem init_accepts_clashing_fields:
  "\<not> isl (FieldHelper_init clashing_fields Map.empty None) \<and>
   (case FieldHelper_init clashing_fields Map.empty None of
      Inl e \<Rightarrow> False
    | Inr h \<Rightarrow> field_to_register h ''en_pwm_mode'' = Some ''CHOPCONF'' \<and>
        field_mask (all_fields h) ''CHOPCONF'' ''toff'' = Inr 0)"
  by (simp add: FieldHelper_init_def clashing_fields_def field_mask_def getitem_def)

text \<open>
  C4 (as amended). \<open>FieldHelper.__init__\<close> never raises and validates nothing: it stores
  the table as given, and the reverse lookup sends each field name to the last register
  (in iteration order) that lists it.
\<close>

theorem init_never_raises:
  "FieldHelper_init af ff regs =
     Inr \<lparr> all_fields = af, field_formatters = ff,
           registers = (case regs of None \<Rightarrow> Map.empty | Some r \<Rightarrow> r),
           field_to_register = map_of (rev (field_pairs af)) \<rparr>"
  by (simp add: FieldHelper_init_def reverse_lookup_eq)

text \<open>The loop of \<open>pretty_format\<close> in closed form, and the width of the hexadecimal word.\<close>

lemma format_fields_closed_form:
  "\<forall>p\<in>set xs. fst p \<noteq> 0 \<Longrightarrow>
   format_fields fmts val xs acc =
     Inr (acc @ map (field_entry fmts val) (filter (shown fmts val) xs))"
proof (induction xs arbitrary: acc)
  case Nil
  show ?case by simp
next
  case (Cons p xs)
  obtain msk name where p: "p = (msk, name)" by (cases p)
  with Cons.prems have "\<not> ffs msk < 0" by (simp add: ffs_neg_iff)
  moreover from Cons.prems have "\<forall>p\<in>set xs. fst p \<noteq> 0" by simp
  ultimately show ?case using p Cons.IH
    by (simp add: rshift_def Let_def shown_def field_text_def field_entry_def)
qed

lemma digits_hex_length:
  "0 < k \<Longrightarrow> 0 \<le> n \<Longrightarrow> n < 16 ^ k \<Longrightarrow> length (digits 16 n) \<le> k"
proof (induction k arbitrary: n)
  case 0
  then show ?case by simp
next
  case (Suc k)
  show ?case
  proof (cases "n < 16")
    case True
    then show ?thesis by (subst digits.simps) simp
  next
    case False
    with Suc.prems have k: "0 < k" by (cases k) auto
    from Suc.prems have "n div 16 < 16 ^ k" "0 \<le> n div 16" by auto
    with Suc.IH [OF k] have "length (digits 16 (n div 16)) \<le> k" by simp
    then show ?thesis using False by (subst digits.simps) simp
  qed
qed

lemma digit_char_hex: "0 \<le> d \<Longrightarrow> d < 16 \<Longrightarrow> digit_char d \<in> set ''0123456789abcdef''"
proof -
  assume "0 \<le> d" "d < 16"
  then have "nat d < length ''0123456789abcdef''" by simp
  then show ?thesis unfolding digit_char_def by (rule nth_mem)
qed

lemma digits_hex_chars: "0 \<le> n \<Longrightarrow> set (digits 16 n) \<subseteq> set ''0123456789abcdef''"
proof -
  define H where "H = set ''0123456789abcdef''"
  have dc: "\<And>d. 0 \<le> d \<Longrightarrow> d < 16 \<Longrightarrow> digit_char d \<in> H"
    unfolding H_def by (rule digit_char_hex)
  have "0 \<le> n \<Longrightarrow> set (digits 16 n) \<subseteq> H"
  proof (induction "16::int" n rule: digits.induct)
    case (1 n)
    show ?case
    proof (cases "n < 16")
      case True
      with "1.prems" have "digit_char n \<in> H" by (simp add: dc)
      then show ?thesis using True by (subst digits.simps) simp
    next
      case False
      with "1.prems" "1.hyps" have "set (digits 16 (n div 16)) \<subseteq> H" by simp
      moreover have "digit_char (n mod 16) \<in> H" by (rule dc) simp_all
      ultimately show ?thesis using False by (subst digits.simps) simp
    qed
  qed
  then show "0 \<le> n \<Longrightarrow> set (digits 16 n) \<subseteq> set ''0123456789abcdef''"
    unfolding H_def .
qed

lemma format_08x_width:
  assumes v: "0 \<le> val" "val < 2 ^ 32"
  shows "length (format_08x val) = 8 \<and> set (format_08x val) \<subseteq> set ''0123456789abcdef''"
proof -
  define H where "H = set ''0123456789abcdef''"
  have z: "CHR ''0'' \<in> H" by (simp add: H_def)
  from v have "val < 16 ^ 8" by simp
  with v have "length (digits 16 val) \<le> 8" by (intro digits_hex_length) simp_all
  moreover have "set (digits 16 val) \<subseteq> H" unfolding H_def using v(1) by (rule digits_hex_chars)
  ultimately have "length (format_08x val) = 8 \<and> set (format_08x val) \<subseteq> H"
    using v z by (auto simp add: format_08x_def Let_def)
  then show ?thesis unfolding H_def .
qed

text \<open>
  C9 (as amended). For a register none of whose masks is 0, \<open>pretty_format\<close> returns one
  line: the register name and a colon, left-justified in 11 columns, a space, the word in
  lower-case hexadecimal zero-filled to 8 digits with no prefix (exactly 8 hexadecimal digits
  for a word in \<open>[0, 2^32)\<close>), then \<open>" name=text"\<close> for each field in ascending order of
  \<open>(mask, name)\<close> whose text, produced by the field's formatter or else by \<open>str\<close>, is
  neither empty nor \<open>"0"\<close>. The helper is returned unchanged.
\<close>

theorem pretty_format_line:
  assumes "\<forall>p\<in>set (get_default (map_of (all_fields self)) reg []). snd p \<noteq> 0"
  shows "pretty_format reg val self =
           (Inr (ljust 11 (reg @ '':'') @ '' '' @ format_08x val @
                 concat (map (field_entry (field_formatters self) val)
                   (filter (shown (field_formatters self) val)
                     (sort (map (\<lambda>(name, msk). (msk, name))
                        (get_default (map_of (all_fields self)) reg [])))))), self) \<and>
         (0 \<le> val \<and> val < 2 ^ 32 \<longrightarrow>
            length (format_08x val) = 8 \<and> set (format_08x val) \<subseteq> set ''0123456789abcdef'')"
proof -
  let ?xs = "sort (map (\<lambda>(name, msk). (msk, name)) (get_default (map_of (all_fields self)) reg []))"
  have "\<forall>p\<in>set ?xs. fst p \<noteq> 0" using assms by auto
  then have "pretty_format reg val self =
           (Inr (ljust 11 (reg @ '':'') @ '' '' @ format_08x val @
                 concat (map (field_entry (field_formatters self) val)
                   (filter (shown (field_formatters self) val) ?xs))), self)"
    by (simp add: pretty_format_def format_fields_closed_form del: set_sort)
  then show ?thesis using format_08x_width [of val] by blast
qed

text \<open>The line for CHOPCONF = 0x35 in the reference table.\<close>

theorem pretty_format_line_witness:
  "fst (pretty_format ''CHOPCONF'' 53 example_helper) = Inr ''CHOPCONF:   00000035 toff=5 hstrt=3'' \<and>
   length (format_08x 53) = 8"
proof -
  have h: "\<forall>p\<in>set (get_default (map_of (all_fields example_helper)) ''CHOPCONF'' []). snd p \<noteq> 0"
    by (simp add: example_helper_def example_fields_def get_default_def)
  have e: "ljust 11 (''CHOPCONF'' @ '':'') @ '' '' @ format_08x 53 @
                 concat (map (field_entry (field_formatters example_helper) 53)
                   (filter (shown (field_formatters example_helper) 53)
                     (sort (map (\<lambda>(name, msk). (msk, name))
                        (get_default (map_of (all_fields example_helper)) ''CHOPCONF'' [])))))
           = ''CHOPCONF:   00000035 toff=5 hstrt=3''"
    by code_simp
  note line = pretty_format_line [OF h, of 53]
  have "fst (pretty_format ''CHOPCONF'' 53 example_helper)
          = Inr ''CHOPCONF:   00000035 toff=5 hstrt=3''"
    by (subst line [THEN conjunct1]) (simp only: fst_conv e)
  moreover from line [THEN conjunct2] have "length (format_08x 53) = 8" by simp
  ultimately show ?thesis by (rule conjI)
qed

text \<open>
  Against C9 as stated: the line for GCONF = 0x104 carries the word as \<open>00000104\<close> after
  the padded name, not as \<open>0x00000104\<close>.
\<close>

theorem pretty_format_prints_bare_hex:
  "fst (pretty_format ''GCONF'' 260 example_helper)
     = Inr ''GCONF:      00000104 en_pwm_mode=1 diag1_stall=1'' \<and>
   fst (pretty_format ''GCONF'' 260 example_helper)
     \<noteq> Inr ''GCONF: 0x00000104 en_pwm_mode=1 diag1_stall=1''"
  by code_simp

lemma set_field_error_keeps_helper:
  "set_field fld x rv rn self = (Inl e, self') \<Longrightarrow> self' = self"
  by (auto simp add: set_field_def Let_def split: sum.splits option.splits)

text \<open>
  C10 (frame). \<open>get_field\<close> and \<open>pretty_format\<close> return the helper they were given, so
  the register cache is the same before and after. \<open>set_field\<close> either raises and leaves
  the helper alone or stores the returned word under the resolved register and changes
  nothing else; \<open>set_config_field\<close> changes the helper only through the \<open>set_field\<close>
  call it ends with.
\<close>

theorem readers_leave_cache:
  "snd (get_field fld reg_value reg_name self) = self \<and>
   snd (pretty_format reg val self) = self \<and>
   (case set_field fld v reg_value reg_name self of
      (Inl e, self') \<Rightarrow> self' = self
    | (Inr w, self') \<Rightarrow>
        (\<exists>rn. resolve_reg self fld reg_name = Inr rn \<and>
              self' = self\<lparr>registers := (registers self)(rn \<mapsto> w)\<rparr>)) \<and>
   (case set_config_field cfg fld dflt cname self of
      (Inl e, self') \<Rightarrow> self' = self
    | (Inr w, self') \<Rightarrow>
        (\<exists>x. set_field fld x None None self = (Inr w, self')))"
proof -
  have g: "snd (get_field fld reg_value reg_name self) = self"
    by (simp add: get_field_def split: sum.splits option.splits)
  have p: "snd (pretty_format reg val self) = self"
    by (simp add: pretty_format_def Let_def split: sum.splits)
  have s: "\<And>x rv rn'. case set_field fld x rv rn' self of
      (Inl e, self') \<Rightarrow> self' = self
    | (Inr w, self') \<Rightarrow>
        (\<exists>rn. resolve_reg self fld rn' = Inr rn \<and>
              self' = self\<lparr>registers := (registers self)(rn \<mapsto> w)\<rparr>)"
    by (simp add: set_field_def Let_def split: sum.splits option.splits)
  have c: "case set_config_field cfg fld dflt cname self of
      (Inl e, self') \<Rightarrow> self' = self
    | (Inr w, self') \<Rightarrow> (\<exists>x. set_field fld x None None self = (Inr w, self'))"
  proof (cases "set_config_field cfg fld dflt cname self")
    case (Pair r self')
    show ?thesis
    proof (cases r)
      case (Inl e)
      with Pair have "self' = self"
        by (auto simp add: set_config_field_def Let_def split: sum.splits if_splits
            dest: set_field_error_keeps_helper)
      with Pair Inl show ?thesis by simp
    next
      case (Inr w)
      with Pair have "\<exists>x. set_field fld x None None self = (Inr w, self')"
        by (auto simp add: set_config_field_def Let_def split: sum.splits if_splits)
      with Pair Inr show ?thesis by simp
    qed
  qed
  from g p s [where x = v and rv = reg_value and rn' = reg_name] c show ?thesis by blast
qed

section \<open>The driver\<close>

text \<open>
  C2 (register read). \<open>get_register\<close> never reaches the bus: on the reference driver the
  call for GCONF raises NameError and the driver, its trace of exchanges included, is as it
  was, where the claim has two exchanges of \<open>[address, 0, 0, 0, 0]\<close> and a decoded word.
  The sibling \<open>set_register\<close> on the same driver resolves the address through
  \<open>Registers\<close> and sends its frame.
\<close>

theorem get_register_raises_name_error:
  "get_register example_bus ''GCONF'' example_driver = (Inl NameError, example_driver) \<and>
   trace (snd (get_register example_bus ''GCONF'' example_driver)) = [] \<and>
   fst (set_register example_Registers ''GCONF'' 4 example_driver) = Inr () \<and>
   trace (snd (set_register example_Registers ''GCONF'' 4 example_driver))
     = [SpiSend [0x80, 0, 0, 0, 4]]"
proof -
  have unbound: "module_ints ''reg'' = None"
    by (simp add: module_ints_def)
  have read: "get_register example_bus ''GCONF'' example_driver = (Inl NameError, example_driver)"
    by (simp add: get_register_def unbound)
  have still: "trace example_driver = []"
    by (simp add: example_driver_def)
  have known: "getitem example_Registers ''GCONF'' = Inr 0"
    by (simp add: getitem_def example_Registers_def)
  have written: "set_register example_Registers ''GCONF'' 4 example_driver
      = (Inr (), example_driver\<lparr>trace := [SpiSend [0x80, 0, 0, 0, 4]]\<rparr>)"
    by (simp add: set_register_def known spi_send_def still Let_def)
  show ?thesis
    by (simp add: read still written)
qed

section \<open>Sensorless homing\<close>

text \<open>What the two hooks do when the register table knows GCONF and TCOOLTHRS.\<close>

lemma set_register_known:
  "Registers reg_name = Some reg \<Longrightarrow>
   set_register Registers reg_name val self =
     (Inr (), self\<lparr>trace := trace self @ [SpiSend (write_frame reg val)]\<rparr>)"
  by (simp add: set_register_def getitem_def spi_send_def write_frame_def)

lemma home_prepare_effects:
  assumes "Registers ''GCONF'' = Some g" "Registers ''TCOOLTHRS'' = Some t"
  shows "home_prepare Registers self =
    (Inr (), self\<lparr>tmc2130 := (tmc2130 self)\<lparr>trace := trace (tmc2130 self) @
        [SpiSend (write_frame g ((reg_GCONF (tmc2130 self) AND NOT GCONF_EN_PWM_MODE) OR GCONF_DIAG1_STALL)),
         SetCurrentRegs (homing_current (tmc2130 self)) (hold_current (tmc2130 self)),
         SpiSend (write_frame t 0xfffff)]\<rparr>,
       mcu_endstop := mcu_endstop self @ [EndstopHomePrepare]\<rparr>)"
  using assms by (simp add: home_prepare_def set_register_known set_current_regs_def Let_def)

lemma home_finalize_effects:
  assumes "Registers ''GCONF'' = Some g" "Registers ''TCOOLTHRS'' = Some t"
  shows "home_finalize Registers self =
    (Inr (), self\<lparr>tmc2130 := (tmc2130 self)\<lparr>trace := trace (tmc2130 self) @
        [SpiSend (write_frame g (reg_GCONF (tmc2130 self))),
         SetCurrentRegs (run_current (tmc2130 self)) (hold_current (tmc2130 self)),
         SpiSend (write_frame t (max 0 (min 0xfffff (tcoolthrs (tmc2130 self)))))]\<rparr>,
       mcu_endstop := mcu_endstop self @ [EndstopHomeFinalize]\<rparr>)"
  using assms by (simp add: home_finalize_def set_register_known set_current_regs_def Let_def)

text \<open>
  C8 (as amended). \<open>home_prepare\<close> calls \<open>set_current_regs\<close> exactly once, with the pair
  (homing_current, hold_current): the run current of the maneuver is the homing current, the
  hold current stays the configured hold current.
\<close>

theorem home_prepare_current:
  assumes "Registers ''GCONF'' = Some g" "Registers ''TCOOLTHRS'' = Some t"
  shows "fst (home_prepare Registers self) = Inr () \<and>
         filter is_current_call
           (drop (length (trace (tmc2130 self)))
              (trace (tmc2130 (snd (home_prepare Registers self)))))
         = [SetCurrentRegs (homing_current (tmc2130 self)) (hold_current (tmc2130 self))]"
  by (simp add: home_prepare_effects [OF assms])

text \<open>On the reference driver (homing 0.5 A, hold 0.3 A).\<close>

theorem home_prepare_current_witness:
  "fst (home_prepare example_Registers example_endstop) = Inr () \<and>
   filter is_current_call (trace (tmc2130 (snd (home_prepare example_Registers example_endstop))))
     = [SetCurrentRegs 0.5 0.3]"
proof -
  have g: "example_Registers ''GCONF'' = Some 0" and t: "example_Registers ''TCOOLTHRS'' = Some 0x14"
    by (simp_all add: example_Registers_def)
  show ?thesis
    using home_prepare_current [OF g t, of example_endstop]
    by (simp add: example_endstop_def example_driver_def)
qed

text \<open>
  Against C8 as stated: on the reference driver the call is (0.5, 0.3); the pair
  (0.5, 0.5) of the claim is never passed.
\<close>

theorem home_prepare_keeps_hold_current:
  "SetCurrentRegs 0.5 0.3
     \<in> set (trace (tmc2130 (snd (home_prepare example_Registers example_endstop)))) \<and>
   SetCurrentRegs 0.5 0.5
     \<notin> set (trace (tmc2130 (snd (home_prepare example_Registers example_endstop))))"
  by (simp add: home_prepare_def set_register_def getitem_def spi_send_def set_current_regs_def
      Let_def example_Registers_def example_endstop_def example_driver_def)

text \<open>A write frame stores the low 32 bits of its word in the addressed register.\<close>

lemma write_frame_latched:
  "chip_step (SpiSend (write_frame reg val)) regs = regs(reg AND 0x7f \<mapsto> take_bit 32 val)"
proof -
  have a: "((reg OR 0x80) AND 0xff) AND 0x80 \<noteq> 0"
  proof -
    have "bit (((reg OR 2 ^ 7) AND mask 8) AND 2 ^ 7) 7"
      by (simp add: bit_simps)
    then have "((reg OR 2 ^ 7) AND mask 8) AND 2 ^ 7 \<noteq> 0" by (auto simp del: bit_and_iff)
    then show ?thesis by (simp add: mask_eq_exp_minus_1)
  qed
  have b: "((reg OR 0x80) AND 0xff) AND 0x7f = reg AND 0x7f"
  proof -
    have "((reg OR 2 ^ n) AND mask (Suc n)) AND mask n = reg AND mask n" for n
      by (rule bit_eqI) (auto simp add: bit_simps)
    from this [of 7] show ?thesis by (simp add: mask_eq_exp_minus_1)
  qed
  have c: "push_bit 24 (drop_bit 24 val AND 0xff) OR push_bit 16 (drop_bit 16 val AND 0xff) OR
           push_bit 8 (drop_bit 8 val AND 0xff) OR (val AND 0xff) = take_bit 32 val"
  proof -
    have "push_bit 24 (drop_bit 24 val AND mask 8) OR push_bit 16 (drop_bit 16 val AND mask 8) OR
           push_bit 8 (drop_bit 8 val AND mask 8) OR (val AND mask 8) = take_bit 32 val"
    proof (rule bit_eqI)
      fix n :: nat
      consider "n < 8" | "8 \<le> n" "n < 16" | "16 \<le> n" "n < 24" | "24 \<le> n" "n < 32" | "32 \<le> n"
        by linarith
      then show "bit (push_bit 24 (drop_bit 24 val AND mask 8) OR
                      push_bit 16 (drop_bit 16 val AND mask 8) OR
                      push_bit 8 (drop_bit 8 val AND mask 8) OR (val AND mask 8)) n
                 = bit (take_bit 32 val) n"
        by cases (auto simp add: bit_simps)
    qed
    then show ?thesis by (simp add: mask_eq_exp_minus_1)
  qed
  show ?thesis
    by (simp only: write_frame_def chip_step.simps a b c if_True not_False_eq_True)
qed

lemma chip_regs_append: "chip_regs (tr @ es) = fold chip_step es (chip_regs tr)"
  by (simp add: chip_regs_def)

text \<open>
  C1 (as amended). When the register table knows GCONF and TCOOLTHRS at two different
  addresses, \<open>home_prepare\<close> followed immediately by \<open>home_finalize\<close> succeeds and leaves
  the chip's GCONF holding the configured word \<open>reg_GCONF\<close> (its low 32 bits) and
  TCOOLTHRS holding the configured threshold clamped to \<open>[0, 0xFFFFF]\<close>, whatever the two
  registers held before; the wrapped endstop has seen its two hooks in order. No word is
  saved at \<open>home_prepare\<close>: the words written back are the driver's static configuration.
\<close>

theorem home_cycle_writes_configured_words:
  assumes R: "Registers ''GCONF'' = Some g" "Registers ''TCOOLTHRS'' = Some t"
    and d: "g AND 0x7f \<noteq> t AND 0x7f"
  shows "case home_prepare Registers self of
           (Inl e, s1) \<Rightarrow> False
         | (Inr u, s1) \<Rightarrow>
             (case home_finalize Registers s1 of
                (Inl e, s2) \<Rightarrow> False
              | (Inr u, s2) \<Rightarrow>
                  chip_regs (trace (tmc2130 s2)) (g AND 0x7f)
                    = Some (take_bit 32 (reg_GCONF (tmc2130 self))) \<and>
                  chip_regs (trace (tmc2130 s2)) (t AND 0x7f)
                    = Some (max 0 (min 0xfffff (tcoolthrs (tmc2130 self)))) \<and>
                  mcu_endstop s2 = mcu_endstop self @ [EndstopHomePrepare, EndstopHomeFinalize])"
proof -
  let ?c = "max 0 (min 0xfffff (tcoolthrs (tmc2130 self)))"
  have "0 \<le> ?c" "?c < 2 ^ 32" by simp_all
  then have c: "take_bit 32 ?c = ?c" by (simp only: take_bit_int_eq_self)
  show ?thesis
    using d
    by (simp add: home_prepare_effects [OF R] home_finalize_effects [OF R] chip_regs_append
        write_frame_latched c del: take_bit_numeral_numeral)
qed

text \<open>On the reference driver: GCONF ends as 4, TCOOLTHRS as 500.\<close>

theorem home_cycle_writes_configured_words_witness:
  "case home_prepare example_Registers example_endstop of
     (Inl e, s1) \<Rightarrow> False
   | (Inr u, s1) \<Rightarrow>
       (case home_finalize example_Registers s1 of
          (Inl e, s2) \<Rightarrow> False
        | (Inr u, s2) \<Rightarrow>
            chip_regs (trace (tmc2130 s2)) 0 = Some 4 \<and>
            chip_regs (trace (tmc2130 s2)) 0x14 = Some 500)"
proof -
  have g: "example_Registers ''GCONF'' = Some 0" and t: "example_Registers ''TCOOLTHRS'' = Some 0x14"
    by (simp_all add: example_Registers_def)
  have d: "(0::int) AND 0x7f \<noteq> 0x14 AND 0x7f" by simp
  show ?thesis
    using home_cycle_writes_configured_words [OF g t d, of example_endstop]
    by (simp add: example_endstop_def example_driver_def split: prod.splits sum.splits)
qed

text \<open>
  Against C1 as stated: on a driver whose GCONF was last written as 5 while \<open>reg_GCONF\<close>
  is 4, the chip holds 5 just before \<open>home_prepare\<close> and 4 after \<open>home_finalize\<close>.
\<close>

theorem home_cycle_takes_no_snapshot:
  "chip_regs (trace (tmc2130 rewritten_endstop)) 0 = Some 5 \<and>
   chip_regs (trace (tmc2130 (snd (home_finalize example_Registers
       (snd (home_prepare example_Registers rewritten_endstop)))))) 0 = Some 4"
proof -
  have g: "example_Registers ''GCONF'' = Some 0" and t: "example_Registers ''TCOOLTHRS'' = Some 0x14"
    by (simp_all add: example_Registers_def)
  have before: "trace (tmc2130 rewritten_endstop) = [SpiSend (write_frame 0 5)]"
    by (simp add: rewritten_endstop_def set_register_known [where Registers = example_Registers and reg_name = "''GCONF''", OF g] example_driver_def)
  have cfg: "reg_GCONF (tmc2130 rewritten_endstop) = 4"
    by (simp add: rewritten_endstop_def set_register_known [where Registers = example_Registers and reg_name = "''GCONF''", OF g] example_driver_def)
  have "chip_regs [SpiSend (write_frame 0 5)] 0 = Some 5"
    by (simp add: write_frame_latched chip_regs_def)
  then show ?thesis
    by (simp add: before cfg home_prepare_effects [OF g t] home_finalize_effects [OF g t]
        chip_regs_def write_frame_latched)
qed

end
